theory Spec2Isabelle
  imports Main "HOL-Library.Char_ord" "HOL-Library.List_Lexorder" "HOL-Library.Multiset"
begin

section \<open>The blueprint verification script\<close>

text \<open>
  The script \<^verbatim>\<open>verify_blueprint.py\<close> holds two module constants, \<^verbatim>\<open>GIT_DIFF_DATA\<close>
  (a list of triples path, additions, deletions) and \<^verbatim>\<open>EXPECTED_CATEGORIES\<close> (a dict
  from path to category name), and three functions over them. The two constants are
  parameters here (\<open>gd\<close> and \<open>ec\<close>), so that every statement ranges over all change
  lists and all category dicts. Python's integers are unbounded: \<open>int\<close>. Python compares
  strings by code point, which is the lexicographic order of their UTF-8 bytes: the order
  on \<open>string\<close> of \<open>List_Lexorder\<close> over \<open>Char_ord\<close>.
\<close>

subsection \<open>Data\<close>

type_synonym change = "string \<times> int \<times> int"

type_synonym change_set = "change list"

type_synonym category_index = "string \<rightharpoonup> string"

text \<open>
  The value stored under each key of the dict \<^verbatim>\<open>categories\<close>:
  \<^verbatim>\<open>{"files": [], "additions": 0, "deletions": 0, "net": 0}\<close>.
\<close>

record bucket =
  files :: "change list"
  additions :: int
  deletions :: int
  net :: int

text \<open>
  The dict \<^verbatim>\<open>categories\<close> is iterated (\<^verbatim>\<open>categories.keys()\<close> is the input of a stable
  sort), so its insertion order matters: an association list with the keys in insertion
  order, each key once.
\<close>

type_synonym categories = "(string \<times> bucket) list"

subsection \<open>calculate_net_changes\<close>

definition calculate_net_changes :: "change_set \<Rightarrow> int \<times> int \<times> int" where
  "calculate_net_changes gd =
     (let total_insertions = sum_list (map (\<lambda>(path, add, delete). add) gd);
          total_deletions = sum_list (map (\<lambda>(path, add, delete). delete) gd);
          total_net = sum_list (map (\<lambda>(path, add, delete). add + delete) gd)
      in (total_insertions, total_deletions, total_net))"

subsection \<open>calculate_category_changes\<close>

text \<open>\<^verbatim>\<open>EXPECTED_CATEGORIES.get(path, "UNCATEGORIZED")\<close>\<close>

definition category_of :: "category_index \<Rightarrow> string \<Rightarrow> string" where
  "category_of ec path = (case ec path of None \<Rightarrow> ''UNCATEGORIZED'' | Some category \<Rightarrow> category)"

definition empty_bucket :: bucket where
  "empty_bucket = \<lparr>files = [], additions = 0, deletions = 0, net = 0\<rparr>"

text \<open>
  The four statements on \<^verbatim>\<open>categories[category]\<close>: the append to its file list and the
  three \<^verbatim>\<open>+=\<close>.
\<close>

definition add_to_bucket :: "change \<Rightarrow> bucket \<Rightarrow> bucket" where
  "add_to_bucket r b = (case r of (path, add, delete) \<Rightarrow>
     b\<lparr>files := files b @ [(path, add, delete)],
       additions := additions b + add,
       deletions := deletions b + delete,
       net := net b + (add + delete)\<rparr>)"

text \<open>One pass of the loop body on the dict built so far.\<close>

definition category_step :: "category_index \<Rightarrow> categories \<Rightarrow> change \<Rightarrow> categories" where
  "category_step ec categories r = (case r of (path, add, delete) \<Rightarrow>
     (let category = category_of ec path;
          categories1 = (if category \<notin> set (map fst categories)
                         then categories @ [(category, empty_bucket)]
                         else categories)
      in map (\<lambda>(k, b). if k = category then (k, add_to_bucket (path, add, delete) b) else (k, b))
           categories1))"

definition calculate_category_changes :: "change_set \<Rightarrow> category_index \<Rightarrow> categories" where
  "calculate_category_changes gd ec = foldl (category_step ec) [] gd"

subsection \<open>main\<close>

text \<open>
  \<^verbatim>\<open>sorted(xs, key=key, reverse=True)\<close> on integer keys: descending by key, and stable
  (with \<^verbatim>\<open>reverse=True\<close> elements with equal keys keep their original order), which is
  the stable ascending sort on the negated key.
\<close>

definition sorted_reverse :: "('a \<Rightarrow> int) \<Rightarrow> 'a list \<Rightarrow> 'a list" where
  "sorted_reverse key xs = sort_key (\<lambda>x. - key x) xs"

text \<open>
  \<^verbatim>\<open>categories[c]\<close> for a key \<open>c\<close> of the dict (the script subscripts it only with keys
  it has just read from it).
\<close>

definition bucket_at :: "categories \<Rightarrow> string \<Rightarrow> bucket" where
  "bucket_at categories c = the (map_of categories c)"

text \<open>Line 282: the order in which the categories are printed.\<close>

definition sorted_categories :: "change_set \<Rightarrow> category_index \<Rightarrow> string list" where
  "sorted_categories gd ec =
     (let categories = calculate_category_changes gd ec
      in sorted_reverse (\<lambda>c. net (bucket_at categories c)) (map fst categories))"

text \<open>Line 290: the order in which the files of one category are printed.\<close>

definition sorted_files :: "bucket \<Rightarrow> change list" where
  "sorted_files cat = sorted_reverse (\<lambda>(path, add, delete). add) (files cat)"

text \<open>Line 295: \<^verbatim>\<open>categories.get("UNCATEGORIZED", {}).get("files", [])\<close>.\<close>

definition uncategorized :: "change_set \<Rightarrow> category_index \<Rightarrow> change list" where
  "uncategorized gd ec =
     (case map_of (calculate_category_changes gd ec) ''UNCATEGORIZED'' of
        None \<Rightarrow> []
      | Some cat \<Rightarrow> files cat)"

text \<open>Lines 304 to 306.\<close>

definition missing_files :: "change_set \<Rightarrow> category_index \<Rightarrow> string set" where
  "missing_files gd ec =
     (let all_files_in_diff = (\<lambda>(path, add, delete). path) ` set gd;
          all_tagged_files = dom ec
      in all_files_in_diff - all_tagged_files)"

text \<open>
  What the script prints, one value per printed line. The fixed banners are constructors
  without arguments; a line that interpolates values carries them. \<open>net_str\<close> is the
  string \<^verbatim>\<open>f"+{add}" if delete == 0 else f"+{add}, -{delete}"\<close>.
\<close>

datatype net_str = Plus int | Plus_Minus int int

datatype out_line =
    Blank
  | Rule_eq
  | Rule_dash
  | Title
  | Facts_header
  | Total_files nat
  | Total_insertions int
  | Total_deletions int
  | Total_lines_changed int
  | Net_change int
  | Breakdown_header
  | Category_name string
  | Cat_files nat
  | Cat_insertions int
  | Cat_deletions int
  | Cat_total int
  | Files_label
  | File_line string net_str
  | Uncategorized_warning
  | Uncategorized_file string int int
  | Missing_error
  | Missing_path string
  | All_tagged
  | Complete

definition print_file :: "change \<Rightarrow> out_line" where
  "print_file r = (case r of (path, add, delete) \<Rightarrow>
     (let net_str = (if delete = 0 then Plus add else Plus_Minus add delete)
      in File_line path net_str))"

text \<open>The body of the loop of lines 282 to 292; \<^verbatim>\<open>f"\n{category}:"\<close> is two lines.\<close>

definition print_category :: "categories \<Rightarrow> string \<Rightarrow> out_line list" where
  "print_category categories category =
     (let cat = bucket_at categories category
      in [Blank, Category_name category,
          Cat_files (length (files cat)),
          Cat_insertions (additions cat),
          Cat_deletions (deletions cat),
          Cat_total (net cat),
          Files_label]
         @ map print_file (sorted_files cat))"

definition main :: "change_set \<Rightarrow> category_index \<Rightarrow> out_line list" where
  "main gd ec =
     (case calculate_net_changes gd of (total_insertions, total_deletions, total_net) \<Rightarrow>
      let categories = calculate_category_changes gd ec;
          uncategorized = uncategorized gd ec;
          missing_files = missing_files gd ec
      in [Rule_eq, Title, Rule_eq, Blank]
         @ [Blank, Facts_header,
            Total_files (length gd),
            Total_insertions total_insertions,
            Total_deletions total_deletions,
            Total_lines_changed total_net,
            Net_change (total_insertions - total_deletions),
            Blank]
         @ [Blank, Breakdown_header, Rule_dash]
         @ concat (map (print_category categories) (sorted_categories gd ec))
         @ (if uncategorized \<noteq> []
            then [Blank, Blank, Uncategorized_warning]
                 @ map (\<lambda>(path, add, delete). Uncategorized_file path add delete) uncategorized
            else [])
         @ (if missing_files \<noteq> {}
            then [Blank, Blank, Missing_error]
                 @ map Missing_path (sorted_list_of_set missing_files)
            else [Blank, Blank, All_tagged])
         @ [Blank, Rule_eq, Complete, Rule_eq])"

subsection \<open>The script run as a command\<close>

text \<open>
  The exceptions the specification names. The script defines and raises none of them: it
  has no \<^verbatim>\<open>raise\<close>, no \<^verbatim>\<open>assert\<close> and no call of \<^verbatim>\<open>sys.exit\<close> (\<^verbatim>\<open>sys\<close> is imported and not
  used), and no operation of the three functions can fail on a list of triples of a
  string and two integers and a dict from strings to strings.
\<close>

datatype error = DuplicatePathError | EmptyCategoryNameError

text \<open>
  \<^verbatim>\<open>if __name__ == "__main__": main()\<close>: either an uncaught exception, or the printed
  lines and the exit status of the process, which is 0 when \<^verbatim>\<open>main\<close> returns.
\<close>

definition run :: "change_set \<Rightarrow> category_index \<Rightarrow> error + (out_line list \<times> nat)" where
  "run gd ec = Inr (main gd ec, 0)"

subsection \<open>Notions used to state the properties\<close>

text \<open>
  The buckets of \<^verbatim>\<open>categories\<close> other than the one the script reads back as the
  uncategorized list (line 295): the aggregates of the named categories.
\<close>

definition aggregates :: "change_set \<Rightarrow> category_index \<Rightarrow> categories" where
  "aggregates gd ec =
     filter (\<lambda>(c, cat). c \<noteq> ''UNCATEGORIZED'') (calculate_category_changes gd ec)"

text \<open>
  The exit status of the process: that of \<open>run\<close>, and 1 for an uncaught exception.
\<close>

definition exit_code :: "change_set \<Rightarrow> category_index \<Rightarrow> nat" where
  "exit_code gd ec = (case run gd ec of Inl e \<Rightarrow> 1 | Inr (out, status) \<Rightarrow> status)"

text \<open>The category the loop body computes for a record.\<close>

definition record_category :: "category_index \<Rightarrow> change \<Rightarrow> string" where
  "record_category ec r = category_of ec (fst r)"

text \<open>The elements of a list in the order of their first occurrence.\<close>

definition first_seen :: "'a list \<Rightarrow> 'a list" where
  "first_seen xs = rev (remdups (rev xs))"

text \<open>The bucket whose file list is \<open>fs\<close> and whose sums are the sums over \<open>fs\<close>.\<close>

definition bucket_of :: "change list \<Rightarrow> bucket" where
  "bucket_of fs =
     \<lparr>files = fs,
      additions = sum_list (map (\<lambda>(path, add, delete). add) fs),
      deletions = sum_list (map (\<lambda>(path, add, delete). delete) fs),
      net = sum_list (map (\<lambda>(path, add, delete). add + delete) fs)\<rparr>"

text \<open>
  The closed form of the loop of \<^verbatim>\<open>calculate_category_changes\<close>: one bucket per category,
  in the order the categories first occur in the change list, holding the records of that
  category in input order. \<open>calculate_category_changes_grouped\<close> proves the loop equal
  to it.
\<close>

definition grouped :: "category_index \<Rightarrow> change list \<Rightarrow> categories" where
  "grouped ec gd =
     map (\<lambda>c. (c, bucket_of (filter (\<lambda>r. record_category ec r = c) gd)))
       (first_seen (map (record_category ec) gd))"

section \<open>The loop in closed form\<close>

lemma first_seen_Nil [simp]: "first_seen [] = []"
  by (simp add: first_seen_def)

lemma first_seen_snoc:
  "first_seen (xs @ [x]) = (if x \<in> set xs then first_seen xs else first_seen xs @ [x])"
  by (simp add: first_seen_def)

lemma set_first_seen [simp]: "set (first_seen xs) = set xs"
  by (simp add: first_seen_def)

lemma distinct_first_seen [simp]: "distinct (first_seen xs)"
  by (simp add: first_seen_def)

lemma add_to_bucket_of:
  "add_to_bucket r (bucket_of fs) = bucket_of (fs @ [r])"
  by (cases r) (simp add: add_to_bucket_def bucket_of_def)

lemma empty_bucket_of: "empty_bucket = bucket_of []"
  by (simp add: empty_bucket_def bucket_of_def)

lemma fst_grouped [simp]: "map fst (grouped ec gd) = first_seen (map (record_category ec) gd)"
  by (simp add: grouped_def comp_def)

lemma grouped_step:
  "category_step ec (grouped ec gd) r = grouped ec (gd @ [r])"
proof (cases r)
  case (fields path add delete)
  let ?c = "category_of ec path"
  have rc: "record_category ec r = ?c"
    by (simp add: record_category_def fields)
  show ?thesis
  proof (cases "?c \<in> set (map (record_category ec) gd)")
    case True
    then show ?thesis
      unfolding category_step_def fields
      apply (simp add: Let_def first_seen_snoc rc[unfolded fields])
      apply (simp add: grouped_def first_seen_snoc rc[unfolded fields] add_to_bucket_of)
      done
  next
    case False
    then have "\<forall>x\<in>set gd. record_category ec x \<noteq> ?c"
      by force
    then have none: "filter (\<lambda>r. record_category ec r = ?c) gd = []"
      by (simp add: filter_empty_conv)
    from False show ?thesis
      unfolding category_step_def fields
      apply (simp add: Let_def first_seen_snoc rc[unfolded fields])
      apply (simp add: grouped_def first_seen_snoc rc[unfolded fields] add_to_bucket_of empty_bucket_of none)
      done
  qed
qed

lemma calculate_category_changes_grouped:
  "calculate_category_changes gd ec = grouped ec gd"
proof (induction gd rule: rev_induct)
  case Nil
  show ?case by (simp add: calculate_category_changes_def grouped_def)
next
  case (snoc r gd)
  then show ?case
    by (simp add: calculate_category_changes_def grouped_step)
qed

section \<open>Sums and counts over the buckets\<close>

lemma map_of_grouped:
  "map_of (grouped ec gd) c =
     (if c \<in> set (map (record_category ec) gd)
      then Some (bucket_of (filter (\<lambda>r. record_category ec r = c) gd)) else None)"
  by (simp add: grouped_def map_of_map_restrict restrict_map_def)

lemma uncategorized_filter:
  "uncategorized gd ec = filter (\<lambda>r. record_category ec r = ''UNCATEGORIZED'') gd"
proof (cases "''UNCATEGORIZED'' \<in> set (map (record_category ec) gd)")
  case True
  then show ?thesis
    by (simp add: uncategorized_def calculate_category_changes_grouped map_of_grouped bucket_of_def)
next
  case False
  then have "\<forall>r\<in>set gd. record_category ec r \<noteq> ''UNCATEGORIZED''"
    by force
  then have "filter (\<lambda>r. record_category ec r = ''UNCATEGORIZED'') gd = []"
    by (simp add: filter_empty_conv)
  with False show ?thesis
    by (simp add: uncategorized_def calculate_category_changes_grouped map_of_grouped)
qed

lemma sum_list_single_key:
  "distinct ks \<Longrightarrow> sum_list (map (\<lambda>k. if c = k then (v::int) else 0) ks) = (if c \<in> set ks then v else 0)"
  by (induction ks) auto

lemma sum_list_by_key:
  fixes g :: "'a \<Rightarrow> int"
  assumes "distinct ks"
  shows "f ` set xs \<subseteq> set ks \<Longrightarrow>
    sum_list (map (\<lambda>k. sum_list (map g (filter (\<lambda>x. f x = k) xs))) (filter Q ks))
      = sum_list (map g (filter (\<lambda>x. Q (f x)) xs))"
proof (induction xs)
  case Nil
  show ?case by simp
next
  case (Cons x xs)
  have d: "distinct (filter Q ks)" using assms by simp
  have "sum_list (map (\<lambda>k. sum_list (map g (filter (\<lambda>y. f y = k) (x # xs)))) (filter Q ks))
      = sum_list (map (\<lambda>k. (if f x = k then g x else 0) + sum_list (map g (filter (\<lambda>y. f y = k) xs))) (filter Q ks))"
    by (rule arg_cong[where f = sum_list]) (rule map_cong, simp_all)
  also have "\<dots> = sum_list (map (\<lambda>k. if f x = k then g x else 0) (filter Q ks))
                 + sum_list (map (\<lambda>k. sum_list (map g (filter (\<lambda>y. f y = k) xs))) (filter Q ks))"
    by (simp add: sum_list_addf)
  also have "\<dots> = (if Q (f x) then g x else 0) + sum_list (map g (filter (\<lambda>x. Q (f x)) xs))"
    using Cons d by (simp add: sum_list_single_key)
  finally show ?case by simp
qed

lemma count_list_concat:
  "count_list (concat xss) r = sum_list (map (\<lambda>xs. count_list xs r) xss)"
  by (induction xss) simp_all

lemma count_list_filter:
  "count_list (filter P xs) r = (if P r then count_list xs r else 0)"
  by (induction xs) auto

lemma sum_list_single_key_nat:
  "distinct ks \<Longrightarrow> sum_list (map (\<lambda>k. if c = k then (v::nat) else 0) ks) = (if c \<in> set ks then v else 0)"
  by (induction ks) auto

lemma count_list_by_key:
  assumes "distinct ks" "f ` set xs \<subseteq> set ks"
  shows "count_list (concat (map (\<lambda>k. filter (\<lambda>x. f x = k) xs) (filter Q ks))) r
      = (if Q (f r) then count_list xs r else 0)"
proof (cases "r \<in> set xs")
  case True
  then have "f r \<in> set ks" using assms(2) by auto
  moreover have "distinct (filter Q ks)" using assms(1) by simp
  ultimately show ?thesis
    by (simp add: count_list_concat comp_def count_list_filter sum_list_single_key_nat)
next
  case False
  then have "count_list xs r = 0" by (simp add: count_list_0_iff)
  then show ?thesis
    by (auto simp: count_list_concat comp_def count_list_filter)
qed

lemma files_aggregates:
  "map (\<lambda>(c, cat). files cat) (aggregates gd ec)
    = map (\<lambda>k. filter (\<lambda>r. record_category ec r = k) gd)
        (filter (\<lambda>c. c \<noteq> ''UNCATEGORIZED'') (first_seen (map (record_category ec) gd)))"
  by (simp add: aggregates_def calculate_category_changes_grouped grouped_def filter_map comp_def bucket_of_def)

lemma net_aggregates:
  "map (\<lambda>(c, cat). net cat) (aggregates gd ec)
    = map (\<lambda>k. sum_list (map (\<lambda>(path, add, delete). add + delete) (filter (\<lambda>r. record_category ec r = k) gd)))
        (filter (\<lambda>c. c \<noteq> ''UNCATEGORIZED'') (first_seen (map (record_category ec) gd)))"
  by (simp add: aggregates_def calculate_category_changes_grouped grouped_def filter_map comp_def bucket_of_def)

lemma sum_list_filter_split:
  fixes g :: "'a \<Rightarrow> int"
  shows "sum_list (map g (filter P xs)) + sum_list (map g (filter (\<lambda>x. \<not> P x) xs)) = sum_list (map g xs)"
  by (induction xs) auto

lemma keys_cover: "record_category ec ` set gd \<subseteq> set (first_seen (map (record_category ec) gd))"
  by simp

lemma count_aggregates:
  "count_list (concat (map (\<lambda>(c, cat). files cat) (aggregates gd ec))) r
     = (if record_category ec r \<noteq> ''UNCATEGORIZED'' then count_list gd r else 0)"
  unfolding files_aggregates
  by (rule count_list_by_key) simp_all

lemma count_all_buckets:
  "count_list (concat (map (\<lambda>(c, cat). files cat) (calculate_category_changes gd ec))) r = count_list gd r"
proof -
  have "map (\<lambda>(c, cat). files cat) (calculate_category_changes gd ec)
      = map (\<lambda>k. filter (\<lambda>r. record_category ec r = k) gd)
          (filter (\<lambda>c. True) (first_seen (map (record_category ec) gd)))"
    by (simp add: calculate_category_changes_grouped grouped_def comp_def bucket_of_def)
  then show ?thesis
    using count_list_by_key[of "first_seen (map (record_category ec) gd)" "record_category ec" gd "\<lambda>c. True" r]
    by simp
qed

lemma sum_net_aggregates:
  "sum_list (map (\<lambda>(c, cat). net cat) (aggregates gd ec))
     = sum_list (map (\<lambda>(path, add, delete). add + delete)
         (filter (\<lambda>r. record_category ec r \<noteq> ''UNCATEGORIZED'') gd))"
  unfolding net_aggregates
  by (rule sum_list_by_key) simp_all

lemma count_list_distinct:
  "distinct xs \<Longrightarrow> x \<in> set xs \<Longrightarrow> count_list xs x = 1"
  by (induction xs) auto

lemma count_list_distinct_paths:
  assumes "distinct (map fst gd)" "r \<in> set gd"
  shows "count_list gd r = 1"
proof -
  from assms(1) have "distinct gd" by (rule distinct_map[THEN iffD1, THEN conjunct1])
  with assms(2) show ?thesis by (simp add: count_list_distinct)
qed

section \<open>Sorting and printing\<close>






lemma missing_files_list:
  "missing_files gd ec = set (filter (\<lambda>path. ec path = None) (map fst gd))"
proof -
  have "(\<lambda>(path, add, delete). path) = (fst :: change \<Rightarrow> string)"
    by (simp add: fun_eq_iff)
  then show ?thesis
    by (auto simp: missing_files_def Let_def domIff)
qed


lemma print_category_no_drift_line:
  assumes "l \<in> set (print_category categories c)"
  shows "l \<noteq> All_tagged \<and> l \<noteq> Missing_error \<and> l \<noteq> Uncategorized_warning \<and> l \<noteq> Missing_path p"
  using assms by (auto simp: print_category_def print_file_def Let_def)

lemma print_category_name:
  "Category_name c' \<in> set (print_category categories c) \<longleftrightarrow> c' = c"
  by (auto simp: print_category_def print_file_def Let_def)

lemma main_All_tagged:
  "All_tagged \<in> set (main gd ec) \<longleftrightarrow> missing_files gd ec = {}"
  using print_category_no_drift_line
  by (auto simp: main_def calculate_net_changes_def Let_def)

lemma main_Missing_error:
  "Missing_error \<in> set (main gd ec) \<longleftrightarrow> missing_files gd ec \<noteq> {}"
  using print_category_no_drift_line
  by (auto simp: main_def calculate_net_changes_def Let_def)

lemma main_Uncategorized_warning:
  "Uncategorized_warning \<in> set (main gd ec) \<longleftrightarrow> uncategorized gd ec \<noteq> []"
  using print_category_no_drift_line
  by (auto simp: main_def calculate_net_changes_def Let_def)


lemma main_Category_name:
  "Category_name c \<in> set (main gd ec) \<longleftrightarrow> c \<in> set (map fst (calculate_category_changes gd ec))"
  by (auto simp: main_def calculate_net_changes_def Let_def print_category_name
        sorted_categories_def sorted_reverse_def)

lemma sum_net_all_buckets:
  "sum_list (map (\<lambda>(c, cat). net cat) (calculate_category_changes gd ec))
     = sum_list (map (\<lambda>(path, add, delete). add + delete) gd)"
proof -
  have "map (\<lambda>(c, cat). net cat) (calculate_category_changes gd ec)
      = map (\<lambda>k. sum_list (map (\<lambda>(path, add, delete). add + delete) (filter (\<lambda>r. record_category ec r = k) gd)))
          (filter (\<lambda>c. True) (first_seen (map (record_category ec) gd)))"
    by (simp add: calculate_category_changes_grouped grouped_def comp_def bucket_of_def)
  then show ?thesis
    using sum_list_by_key[of "first_seen (map (record_category ec) gd)" "record_category ec" gd
        "\<lambda>(path, add, delete). add + delete" "\<lambda>c. True"]
    by simp
qed

lemma record_category_sentinel:
  "record_category ec r = ''UNCATEGORIZED'' \<longleftrightarrow> ec (fst r) = None \<or> ec (fst r) = Some ''UNCATEGORIZED''"
  by (simp add: record_category_def category_of_def split: option.split)

section \<open>The claims\<close>

text \<open>Unfolding these evaluates the script on a concrete change list and dict.\<close>

lemmas script_defs =
  calculate_net_changes_def calculate_category_changes_def category_step_def category_of_def
  empty_bucket_def add_to_bucket_def sorted_reverse_def bucket_at_def sorted_categories_def
  sorted_files_def uncategorized_def aggregates_def

lemmas main_defs = main_def print_category_def print_file_def missing_files_list



text \<open>
  C2, as the script has it. The process exits with status 0 on every input: \<^verbatim>\<open>main\<close>
  returns and nothing calls \<^verbatim>\<open>sys.exit\<close>. Drift is signalled on the printed lines only:
  the uncategorized warning is printed exactly when the uncategorized list is not empty,
  the missing-files error exactly when \<^verbatim>\<open>missing_files\<close> is not empty, and the
  confirmation that all files are tagged exactly when it is empty.
\<close>

theorem exit_code_always_zero:
  "exit_code gd ec = 0
   \<and> (Uncategorized_warning \<in> set (main gd ec) \<longleftrightarrow> uncategorized gd ec \<noteq> [])
   \<and> (Missing_error \<in> set (main gd ec) \<longleftrightarrow> missing_files gd ec \<noteq> {})
   \<and> (All_tagged \<in> set (main gd ec) \<longleftrightarrow> missing_files gd ec = {})"
  by (simp add: exit_code_def run_def main_Uncategorized_warning main_Missing_error main_All_tagged)

text \<open>
  C2 as stated fails: a change list with one file and an empty category dict has drift in
  both lists, and the exit status is 0.
\<close>

theorem exit_code_counterexample:
  "exit_code [(''b.go'', 5, 0)] Map.empty = 0
   \<and> uncategorized [(''b.go'', 5, 0)] Map.empty = [(''b.go'', 5, 0)]
   \<and> missing_files [(''b.go'', 5, 0)] Map.empty = {''b.go''}"
  by (simp add: exit_code_def run_def script_defs missing_files_list)

text \<open>
  C3, as the script has it. A change list in which two records have the same path raises
  no error: the run returns with its printed lines and status 0, every record occurs in
  the file lists of the buckets as many times as in the change list, and the \<open>net\<close> sums
  of the buckets add up to the additions plus deletions of all records, so that both
  records of a duplicated path are listed and counted.
\<close>

theorem duplicate_paths_are_aggregated:
  assumes "\<not> distinct (map fst gd)"
  shows "run gd ec = Inr (main gd ec, 0)
   \<and> count_list (concat (map (\<lambda>(c, cat). files cat) (calculate_category_changes gd ec))) r
       = count_list gd r
   \<and> sum_list (map (\<lambda>(c, cat). net cat) (calculate_category_changes gd ec))
       = sum_list (map (\<lambda>(path, add, delete). add + delete) gd)"
  by (simp add: run_def count_all_buckets sum_net_all_buckets)

theorem duplicate_paths_are_aggregated_witness:
  "\<not> distinct (map fst [(''a.go'', 1::int, 0::int), (''a.go'', 2, 0)])
   \<and> count_list (concat (map (\<lambda>(c, cat). files cat)
        (calculate_category_changes [(''a.go'', 1, 0), (''a.go'', 2, 0)] [''a.go'' \<mapsto> ''Core''])))
        (''a.go'', 2, 0) = 1
   \<and> sum_list (map (\<lambda>(c, cat). net cat)
        (calculate_category_changes [(''a.go'', 1, 0), (''a.go'', 2, 0)] [''a.go'' \<mapsto> ''Core''])) = 3"
  using duplicate_paths_are_aggregated
    [of "[(''a.go'', 1, 0), (''a.go'', 2, 0)]" "[''a.go'' \<mapsto> ''Core'']" "(''a.go'', 2, 0)"]
  by simp

text \<open>
  C3 as stated fails: two records with the path \<open>a.go\<close> give no
  \<open>DuplicatePathError\<close> but a full table, with both records in the bucket of their
  category and both counted in its sums and in the totals.
\<close>

theorem duplicate_paths_counterexample:
  "run [(''a.go'', 1, 0), (''a.go'', 2, 0)] [''a.go'' \<mapsto> ''Core'']
     = Inr (main [(''a.go'', 1, 0), (''a.go'', 2, 0)] [''a.go'' \<mapsto> ''Core''], 0)
   \<and> run [(''a.go'', 1, 0), (''a.go'', 2, 0)] [''a.go'' \<mapsto> ''Core''] \<noteq> Inl DuplicatePathError
   \<and> calculate_category_changes [(''a.go'', 1, 0), (''a.go'', 2, 0)] [''a.go'' \<mapsto> ''Core'']
     = [(''Core'', \<lparr>files = [(''a.go'', 1, 0), (''a.go'', 2, 0)], additions = 3, deletions = 0, net = 3\<rparr>)]
   \<and> calculate_net_changes [(''a.go'', 1, 0), (''a.go'', 2, 0)] = (3, 0, 3)"
  by (simp add: run_def script_defs)

text \<open>
  C4. When no two records of the change list have the same path, every record of the list
  occurs exactly once in the file lists of the named aggregates and the uncategorized list
  taken together: it is in the uncategorized list exactly when it is in the file list of
  no aggregate, never in both and never in neither. The aggregates are the buckets of
  \<^verbatim>\<open>categories\<close> other than \<^verbatim>\<open>"UNCATEGORIZED"\<close>, whose file list the script reads back as
  the uncategorized list.
\<close>

theorem record_in_exactly_one_list:
  assumes "distinct (map fst gd)" and "r \<in> set gd"
  shows "count_list (concat (map (\<lambda>(c, cat). files cat) (aggregates gd ec)) @ uncategorized gd ec) r = 1
       \<and> (r \<in> set (uncategorized gd ec)) = (\<not> (\<exists>(c, cat) \<in> set (aggregates gd ec). r \<in> set (files cat)))"
proof -
  have one: "count_list gd r = 1"
    using assms by (rule count_list_distinct_paths)
  have a: "count_list (concat (map (\<lambda>(c, cat). files cat) (aggregates gd ec)) @ uncategorized gd ec) r = 1"
    by (simp add: count_aggregates uncategorized_filter count_list_filter one)
  have u: "r \<in> set (uncategorized gd ec) \<longleftrightarrow> record_category ec r = ''UNCATEGORIZED''"
    using assms(2) by (simp add: uncategorized_filter)
  have "(\<exists>(c, cat) \<in> set (aggregates gd ec). r \<in> set (files cat))
      \<longleftrightarrow> r \<in> set (concat (map (\<lambda>(c, cat). files cat) (aggregates gd ec)))"
    by auto
  also have "\<dots> \<longleftrightarrow> count_list (concat (map (\<lambda>(c, cat). files cat) (aggregates gd ec))) r \<noteq> 0"
    by (simp add: count_list_0_iff)
  also have "\<dots> \<longleftrightarrow> record_category ec r \<noteq> ''UNCATEGORIZED''"
    by (simp add: count_aggregates one)
  finally show ?thesis using a u by simp
qed

theorem record_in_exactly_one_list_witness:
  "distinct (map fst [(''a.go'', 10::int, 2::int), (''b.go'', 5, 0)])
   \<and> (''a.go'', 10, 2) \<in> set [(''a.go'', 10::int, 2::int), (''b.go'', 5, 0)]
   \<and> count_list
        (concat (map (\<lambda>(c, cat). files cat)
           (aggregates [(''a.go'', 10, 2), (''b.go'', 5, 0)] [''a.go'' \<mapsto> ''Core'']))
         @ uncategorized [(''a.go'', 10, 2), (''b.go'', 5, 0)] [''a.go'' \<mapsto> ''Core''])
        (''a.go'', 10, 2) = 1
   \<and> (''a.go'', 10, 2) \<notin> set (uncategorized [(''a.go'', 10, 2), (''b.go'', 5, 0)] [''a.go'' \<mapsto> ''Core''])"
  using record_in_exactly_one_list
    [of "[(''a.go'', 10, 2), (''b.go'', 5, 0)]" "(''a.go'', 10, 2)" "[''a.go'' \<mapsto> ''Core'']"]
  by (simp add: script_defs)

text \<open>
  C5. For every change list (with or without duplicate paths) the script returns, and:
  the total of lines changed is the sum of additions plus deletions over all records; the
  \<open>net\<close> sums of the aggregates plus the additions and deletions of the uncategorized
  records add up to that total; the net change the script prints is the total of
  insertions minus the total of deletions.
\<close>

theorem totals_consistent:
  "(case calculate_net_changes gd of (total_insertions, total_deletions, total_net) \<Rightarrow>
      total_net = sum_list (map (\<lambda>(path, add, delete). add + delete) gd)
    \<and> sum_list (map (\<lambda>(c, cat). net cat) (aggregates gd ec))
        + sum_list (map (\<lambda>(path, add, delete). add + delete) (uncategorized gd ec)) = total_net
    \<and> Net_change (total_insertions - total_deletions) \<in> set (main gd ec))
   \<and> run gd ec = Inr (main gd ec, 0)"
proof -
  have "sum_list (map (\<lambda>(c, cat). net cat) (aggregates gd ec))
        + sum_list (map (\<lambda>(path, add, delete). add + delete) (uncategorized gd ec))
      = sum_list (map (\<lambda>(path, add, delete). add + delete) gd)"
    unfolding sum_net_aggregates uncategorized_filter
    using sum_list_filter_split[of "\<lambda>(path, add, delete). add + delete" "\<lambda>r. record_category ec r \<noteq> ''UNCATEGORIZED''" gd]
    by simp
  then show ?thesis
    by (simp add: calculate_net_changes_def main_def run_def Let_def)
qed






text \<open>
  C8, as the script has it. A category dict that maps a path to some string \<open>c\<close>, the
  empty string and blank strings included, raises no error: the run returns with status 0,
  and when that path is in the change list its record is aggregated in a bucket whose key
  is \<open>c\<close>, which is printed as a category name like any other.
\<close>

theorem empty_category_is_ordinary_name:
  assumes "ec path = Some c" and "(path, add, delete) \<in> set gd"
  shows "run gd ec = Inr (main gd ec, 0)
   \<and> map_of (calculate_category_changes gd ec) c
       = Some (bucket_of (filter (\<lambda>r. record_category ec r = c) gd))
   \<and> (path, add, delete) \<in> set (files (bucket_at (calculate_category_changes gd ec) c))
   \<and> Category_name c \<in> set (main gd ec)"
proof -
  have rc: "record_category ec (path, add, delete) = c"
    using assms(1) by (simp add: record_category_def category_of_def)
  then have key: "c \<in> set (map (record_category ec) gd)"
    using assms(2) by force
  then have m: "map_of (calculate_category_changes gd ec) c
       = Some (bucket_of (filter (\<lambda>r. record_category ec r = c) gd))"
    by (simp add: calculate_category_changes_grouped map_of_grouped)
  have f: "(path, add, delete) \<in> set (files (bucket_at (calculate_category_changes gd ec) c))"
    using assms(2) rc by (simp add: bucket_at_def m bucket_of_def)
  have n: "Category_name c \<in> set (main gd ec)"
    using key by (simp add: main_Category_name calculate_category_changes_grouped)
  from m f n show ?thesis by (simp add: run_def)
qed

theorem empty_category_is_ordinary_name_witness:
  "[''a.go'' \<mapsto> ''''] ''a.go'' = Some ''''
   \<and> (''a.go'', 1, 0) \<in> set [(''a.go'', 1::int, 0::int)]
   \<and> run [(''a.go'', 1, 0)] [''a.go'' \<mapsto> ''''] = Inr (main [(''a.go'', 1, 0)] [''a.go'' \<mapsto> ''''], 0)
   \<and> (''a.go'', 1, 0) \<in> set (files (bucket_at (calculate_category_changes [(''a.go'', 1, 0)] [''a.go'' \<mapsto> '''']) ''''))
   \<and> Category_name '''' \<in> set (main [(''a.go'', 1, 0)] [''a.go'' \<mapsto> ''''])"
  using empty_category_is_ordinary_name
    [of "[''a.go'' \<mapsto> '''']" "''a.go''" "''''" 1 0 "[(''a.go'', 1, 0)]"]
  by simp

text \<open>
  C8 as stated fails: a dict that maps \<open>a.go\<close> to the empty string gives no
  \<open>EmptyCategoryNameError\<close> but a table with one bucket whose key is the empty string.
\<close>

theorem empty_category_counterexample:
  "run [(''a.go'', 1, 0)] [''a.go'' \<mapsto> ''''] = Inr (main [(''a.go'', 1, 0)] [''a.go'' \<mapsto> ''''], 0)
   \<and> run [(''a.go'', 1, 0)] [''a.go'' \<mapsto> ''''] \<noteq> Inl EmptyCategoryNameError
   \<and> calculate_category_changes [(''a.go'', 1, 0)] [''a.go'' \<mapsto> '''']
     = [('''', \<lparr>files = [(''a.go'', 1, 0)], additions = 1, deletions = 0, net = 1\<rparr>)]"
  by (simp add: run_def script_defs)

text \<open>
  C9, as the script has it. A record whose path the dict maps to \<^verbatim>\<open>"UNCATEGORIZED"\<close> is
  merged with the records that have no entry: the uncategorized list is the records of the
  change list, in input order, whose path has no entry or has the entry
  \<^verbatim>\<open>"UNCATEGORIZED"\<close>, the table of categories is the one the script computes when those
  entries are removed from the dict, and the run returns with status 0.
\<close>

theorem sentinel_entries_are_merged:
  "uncategorized gd ec
     = filter (\<lambda>(path, add, delete). ec path = None \<or> ec path = Some ''UNCATEGORIZED'') gd
   \<and> calculate_category_changes gd ec
     = calculate_category_changes gd (\<lambda>path. if ec path = Some ''UNCATEGORIZED'' then None else ec path)
   \<and> run gd ec = Inr (main gd ec, 0)"
proof -
  have u: "uncategorized gd ec
     = filter (\<lambda>(path, add, delete). ec path = None \<or> ec path = Some ''UNCATEGORIZED'') gd"
    unfolding uncategorized_filter
    by (rule filter_cong) (auto simp: record_category_sentinel)
  have "category_of (\<lambda>path. if ec path = Some ''UNCATEGORIZED'' then None else ec path) = category_of ec"
    by (auto simp: fun_eq_iff category_of_def split: option.split)
  then have "category_step (\<lambda>path. if ec path = Some ''UNCATEGORIZED'' then None else ec path)
      = category_step ec"
    by (simp add: fun_eq_iff category_step_def)
  then have c: "calculate_category_changes gd ec
     = calculate_category_changes gd (\<lambda>path. if ec path = Some ''UNCATEGORIZED'' then None else ec path)"
    by (simp add: calculate_category_changes_def)
  from u c show ?thesis by (simp add: run_def)
qed

text \<open>
  C9 as stated fails: with \<open>a\<close> mapped to \<^verbatim>\<open>"UNCATEGORIZED"\<close> and \<open>b\<close> without entry,
  both records are in the one bucket and in the one warning section, the table is the one
  of the empty dict, and these are all the lines of the run: none of them reports a
  collision, and the exit status is 0.
\<close>

theorem sentinel_collision_counterexample:
  "main [(''a'', 1, 0), (''b'', 2, 0)] [''a'' \<mapsto> ''UNCATEGORIZED'']
     = [Rule_eq, Title, Rule_eq, Blank,
        Blank, Facts_header, Total_files 2, Total_insertions 3, Total_deletions 0,
        Total_lines_changed 3, Net_change 3, Blank,
        Blank, Breakdown_header, Rule_dash,
        Blank, Category_name ''UNCATEGORIZED'', Cat_files 2, Cat_insertions 3, Cat_deletions 0,
        Cat_total 3, Files_label, File_line ''b'' (Plus 2), File_line ''a'' (Plus 1),
        Blank, Blank, Uncategorized_warning,
        Uncategorized_file ''a'' 1 0, Uncategorized_file ''b'' 2 0,
        Blank, Blank, Missing_error, Missing_path ''b'',
        Blank, Rule_eq, Complete, Rule_eq]
   \<and> calculate_category_changes [(''a'', 1, 0), (''b'', 2, 0)] [''a'' \<mapsto> ''UNCATEGORIZED'']
     = calculate_category_changes [(''a'', 1, 0), (''b'', 2, 0)] Map.empty
   \<and> uncategorized [(''a'', 1, 0), (''b'', 2, 0)] [''a'' \<mapsto> ''UNCATEGORIZED'']
     = [(''a'', 1, 0), (''b'', 2, 0)]
   \<and> exit_code [(''a'', 1, 0), (''b'', 2, 0)] [''a'' \<mapsto> ''UNCATEGORIZED''] = 0"
  by (simp add: script_defs main_defs sorted_list_of_set_sort_remdups exit_code_def run_def)

text \<open>
  C10. When no entry of the category dict maps a path to \<^verbatim>\<open>"UNCATEGORIZED"\<close>, the set
  \<^verbatim>\<open>missing_files\<close> of the error section is the set of the paths of the records in the
  \<^verbatim>\<open>"UNCATEGORIZED"\<close> bucket, which the warning section prints; hence the confirmation
  that all files are tagged is printed exactly when the uncategorized warning is not.
\<close>

theorem missing_files_are_uncategorized_paths:
  assumes "\<forall>path. ec path \<noteq> Some ''UNCATEGORIZED''"
  shows "missing_files gd ec = (\<lambda>(path, add, delete). path) ` set (uncategorized gd ec)
   \<and> (All_tagged \<in> set (main gd ec) \<longleftrightarrow> Uncategorized_warning \<notin> set (main gd ec))"
proof -
  have p: "(\<lambda>(path, add, delete). path) = (fst :: change \<Rightarrow> string)"
    by (simp add: fun_eq_iff)
  have "set (uncategorized gd ec) = {r \<in> set gd. ec (fst r) = None}"
    using assms by (auto simp: uncategorized_filter record_category_sentinel)
  then have m: "missing_files gd ec = (\<lambda>(path, add, delete). path) ` set (uncategorized gd ec)"
    unfolding p by (auto simp: missing_files_list)
  then have "missing_files gd ec = {} \<longleftrightarrow> uncategorized gd ec = []"
    by simp
  with m show ?thesis
    by (simp add: main_All_tagged main_Uncategorized_warning)
qed

theorem missing_files_are_uncategorized_paths_witness:
  "(\<forall>path. [''a.go'' \<mapsto> ''Core''] path \<noteq> Some ''UNCATEGORIZED'')
   \<and> missing_files [(''a.go'', 10, 2), (''b.go'', 5, 0)] [''a.go'' \<mapsto> ''Core'']
       = (\<lambda>(path, add, delete). path) ` set (uncategorized [(''a.go'', 10, 2), (''b.go'', 5, 0)] [''a.go'' \<mapsto> ''Core''])
   \<and> uncategorized [(''a.go'', 10, 2), (''b.go'', 5, 0)] [''a.go'' \<mapsto> ''Core''] = [(''b.go'', 5, 0)]
   \<and> All_tagged \<notin> set (main [(''a.go'', 10, 2), (''b.go'', 5, 0)] [''a.go'' \<mapsto> ''Core''])"
  using missing_files_are_uncategorized_paths
    [of "[''a.go'' \<mapsto> ''Core'']" "[(''a.go'', 10, 2), (''b.go'', 5, 0)]"]
  by (simp add: script_defs main_Uncategorized_warning)

end
